theory Spec2Isabelle
  imports Main
begin

chapter \<open>The version scripts and the installer of devapack\<close>

text \<open>
  The TypeScript scripts of the repository, embedded function by function:
  \<open>bump.ts\<close>, \<open>fetch.ts\<close> and \<open>sync.ts\<close>, which maintain the version record
  \<open>project-version.json\<close> and copy its version into \<open>package.json\<close> and \<open>Cargo.toml\<close>;
  \<open>postinstall.ts\<close>, which downloads the binary of the platform; and
  \<open>copy-to-binary.ts\<close>, which copies the version record next to a binary. Files, the
  console, the network and Node's library are explicit: a script takes the state it reads
  and returns the state it leaves and how it ended.
\<close>

section \<open>JavaScript strings and numbers\<close>

text \<open>
  A JavaScript string is a sequence of UTF-16 code units. The regular expressions of the
  scripts carry no \<open>u\<close> flag, so they work on code units one by one; a string is
  therefore a list of code units, each a natural number. \<open>lit\<close> embeds an ASCII literal.
\<close>

type_synonym ustring = "nat list"

definition lit :: "string \<Rightarrow> ustring" where
  "lit s = map of_char s"

abbreviation dquote :: nat where "dquote \<equiv> 34"
abbreviation dollar :: nat where "dollar \<equiv> 36"
abbreviation ampersand :: nat where "ampersand \<equiv> 38"
abbreviation apostrophe :: nat where "apostrophe \<equiv> 39"
abbreviation hyphen :: nat where "hyphen \<equiv> 45"
abbreviation dot :: nat where "dot \<equiv> 46"
abbreviation less_than :: nat where "less_than \<equiv> 60"
abbreviation equals :: nat where "equals \<equiv> 61"
abbreviation backtick :: nat where "backtick \<equiv> 96"

text \<open>The character classes \<open>\d\<close>, \<open>\w\<close> and \<open>\s\<close> of a regular expression without flags.\<close>

definition is_digit :: "nat \<Rightarrow> bool" where
  "is_digit c \<longleftrightarrow> 48 \<le> c \<and> c \<le> 57"

definition is_word :: "nat \<Rightarrow> bool" where
  "is_word c \<longleftrightarrow> is_digit c \<or> (65 \<le> c \<and> c \<le> 90) \<or> (97 \<le> c \<and> c \<le> 122) \<or> c = 95"

definition is_space :: "nat \<Rightarrow> bool" where
  "is_space c \<longleftrightarrow>
     (9 \<le> c \<and> c \<le> 13) \<or> c = 32 \<or> c = 160 \<or> c = 5760 \<or> (8192 \<le> c \<and> c \<le> 8202) \<or>
     c = 8232 \<or> c = 8233 \<or> c = 8239 \<or> c = 8287 \<or> c = 12288 \<or> c = 65279"


text \<open>
  A JavaScript number is an IEEE 754 double. The scripts only ever hold non-negative
  integers in one (a version component, the build counter), so a number is modelled by
  the natural number it is equal to. Every natural number up to \<open>2 ^ 53\<close> is a double;
  above, a double has 53 significant bits and a sum is rounded to the nearest double,
  ties to the even significand. \<open>rne53\<close> is that rounding, \<open>js_incr\<close> is \<open>x + 1\<close>.
\<close>

fun bitlen :: "nat \<Rightarrow> nat" where
  "bitlen n = (if n = 0 then 0 else Suc (bitlen (n div 2)))"

declare bitlen.simps [simp del]

definition rne53 :: "nat \<Rightarrow> nat" where
  "rne53 n =
     (if n \<le> 2 ^ 53 then n
      else let ulp = 2 ^ (bitlen n - 53); q = n div ulp; r = n mod ulp
           in if 2 * r < ulp \<or> (2 * r = ulp \<and> even q) then q * ulp else (q + 1) * ulp)"


definition js_incr :: "nat \<Rightarrow> nat" where
  "js_incr n = rne53 (n + 1)"

text \<open>
  Conversions between numbers and decimal strings. \<open>Number(s)\<close> of a string of digits
  (the unary \<open>+\<close> of \<open>bump.ts\<close>) and \<open>String(x)\<close> (a template literal) are exact up to
  \<open>2 ^ 53\<close>: the string of digits denotes a double, and the double prints as its decimal
  digits. Above \<open>2 ^ 53\<close> the first rounds and the second prints the shortest digits that
  read back as the same double; neither is modelled, and the conversions return \<open>None\<close>
  there, which the scripts' models turn into the outcome \<open>Unmodelled\<close>.
\<close>

definition digit_value :: "ustring \<Rightarrow> nat" where
  "digit_value ds = foldl (\<lambda>a c. 10 * a + (c - 48)) 0 ds"

fun dec :: "nat \<Rightarrow> ustring" where
  "dec n = (if n < 10 then [48 + n] else dec (n div 10) @ [48 + n mod 10])"

declare dec.simps [simp del]

definition to_number :: "ustring \<Rightarrow> nat option" where
  "to_number ds = (if digit_value ds \<le> 2 ^ 53 then Some (digit_value ds) else None)"

definition number_to_string :: "nat \<Rightarrow> ustring option" where
  "number_to_string n = (if n \<le> 2 ^ 53 then Some (dec n) else None)"

section \<open>JSON documents, files and outcomes\<close>

text \<open>
  A JSON value: \<open>null\<close>, a boolean, a number (a non-negative integer, see above; a
  negative or fractional number is outside the model), a string, an array or an object.
  The object a file holds is a map from keys to values; a key that is absent reads as
  \<open>undefined\<close>, and \<open>JSON.stringify\<close> drops a key whose value is \<open>undefined\<close>, so
  \<open>undefined\<close> is \<open>None\<close> throughout.
\<close>

datatype jv =
    JNull
  | JBool bool
  | JNum nat
  | JStr ustring
  | JArr "jv list"
  | JObj "(ustring \<times> jv) list"

type_synonym jobject = "ustring \<rightharpoonup> jv"

definition k_version :: ustring where "k_version = lit ''version''"
definition k_build :: ustring where "k_build = lit ''build''"
definition k_lastCommit :: ustring where "k_lastCommit = lit ''lastCommit''"

text \<open>
  The three files of the version scripts. A JSON file is missing, or its text is not
  JSON, or it holds an object (a document whose top level is not an object is outside
  the model); \<open>JSON.parse\<close> after \<open>JSON.stringify\<close> gives the object back, so a JSON
  file is kept as the object it holds. \<open>Cargo.toml\<close> is kept as its text, decoded into
  code units. The console is the list of messages printed so far.
\<close>

datatype 'a json_file = Missing | Malformed | Doc 'a

datatype level = LOG | WARN | ERROR

datatype message =
    SpecifyVersionType
  | VersionTypeNonRecognized
  | GitCommitUnavailable
  | Downloading ustring ustring
  | AssetNotFound
  | HttpFailed nat
  | RequestFailed ustring
  | Downloaded ustring ustring
  | UnsupportedPlatform ustring
  | UnknownArg ustring
  | SourceNotFound ustring
  | DestinationUnresolved
  | Copied ustring
  | CopyFailed

record fs =
  project_version_json :: "jobject json_file"
  package_json :: "jobject json_file"
  cargo_toml :: "ustring option"
  console :: "(level \<times> message) list"

text \<open>
  How a call ends: it returns, it throws, it ends the process through \<open>process.exit\<close>,
  or it leaves the part of JavaScript that is modelled (a number above \<open>2 ^ 53\<close>, an
  array or an object turned into a string).
\<close>

datatype js_error = ENOENT | SyntaxError | TypeError | InvalidVersionFormat | MkdirFailed

datatype 'a outcome = Returned 'a | Thrown js_error | Exited nat | Unmodelled

section \<open>bump.ts\<close>

text \<open>
  \<open>/^(\d+)\.(\d+)\.(\d+)(?:-([\w.]+))?$/\<close> matched against the whole string: the four
  captures, or \<open>None\<close> when the string does not match. A run of digits is always followed
  by a character that is not a digit, so the greedy \<open>\d+\<close> never gives a digit back, and
  the matcher needs no backtracking.
\<close>

definition is_prerelease_char :: "nat \<Rightarrow> bool" where
  "is_prerelease_char c \<longleftrightarrow> is_word c \<or> c = dot"

definition digit_run :: "ustring \<Rightarrow> (ustring \<times> ustring) option" where
  "digit_run s =
     (let d = takeWhile is_digit s in if d = [] then None else Some (d, dropWhile is_digit s))"

definition expect :: "nat \<Rightarrow> ustring \<Rightarrow> ustring option" where
  "expect c s = (case s of [] \<Rightarrow> None | x # r \<Rightarrow> if x = c then Some r else None)"

definition prerelease_suffix :: "ustring \<Rightarrow> ustring option option" where
  "prerelease_suffix s =
     (case s of
        [] \<Rightarrow> Some None
      | c # pre \<Rightarrow>
          if c = hyphen \<and> pre \<noteq> [] \<and> list_all is_prerelease_char pre then Some (Some pre)
          else None)"

definition versionRegex :: "ustring \<Rightarrow> (ustring \<times> ustring \<times> ustring \<times> ustring option) option" where
  "versionRegex s =
     Option.bind (digit_run s) (\<lambda>(major, r1).
     Option.bind (expect dot r1) (\<lambda>r2.
     Option.bind (digit_run r2) (\<lambda>(minor, r3).
     Option.bind (expect dot r3) (\<lambda>r4.
     Option.bind (digit_run r4) (\<lambda>(patch, r5).
     Option.bind (prerelease_suffix r5) (\<lambda>pre.
     Some (major, minor, patch, pre)))))))"

text \<open>
  The language of the regular expression, written out: the strings
  \<open>MAJOR.MINOR.PATCH\<close> and \<open>MAJOR.MINOR.PATCH-PRERELEASE\<close> whose three components are
  non-empty strings of digits and whose prerelease part is a non-empty string of word
  characters and dots.
\<close>

definition digits :: "ustring \<Rightarrow> bool" where
  "digits d \<longleftrightarrow> d \<noteq> [] \<and> list_all is_digit d"

definition version_parts :: "ustring \<Rightarrow> ustring \<Rightarrow> ustring \<Rightarrow> ustring option \<Rightarrow> bool" where
  "version_parts major minor patch pre \<longleftrightarrow>
     digits major \<and> digits minor \<and> digits patch \<and>
     (case pre of None \<Rightarrow> True | Some p \<Rightarrow> p \<noteq> [] \<and> list_all is_prerelease_char p)"

definition version_text :: "ustring \<Rightarrow> ustring \<Rightarrow> ustring \<Rightarrow> ustring option \<Rightarrow> ustring" where
  "version_text major minor patch pre =
     major @ [dot] @ minor @ [dot] @ patch @ (case pre of None \<Rightarrow> [] | Some p \<Rightarrow> hyphen # p)"

definition is_release :: "ustring \<Rightarrow> bool" where
  "is_release v = (case versionRegex v of Some (_, _, _, None) \<Rightarrow> True | _ \<Rightarrow> False)"

text \<open>The template expression \<open>${+s + 1}\<close> for a captured string of digits \<open>s\<close>.\<close>

definition incremented :: "ustring \<Rightarrow> ustring option" where
  "incremented s =
     (case to_number s of None \<Rightarrow> None | Some n \<Rightarrow> number_to_string (js_incr n))"

text \<open>The \<open>switch\<close> over the bump type; its default branch ends the process with code 1.\<close>

definition nextVersion :: "ustring \<Rightarrow> ustring \<Rightarrow> ustring \<Rightarrow> ustring \<Rightarrow> ustring outcome" where
  "nextVersion bumpType major minor patch =
     (if bumpType = lit ''major'' then
        (case incremented major of None \<Rightarrow> Unmodelled
         | Some m \<Rightarrow> Returned (m @ lit ''.0.0''))
      else if bumpType = lit ''minor'' then
        (case incremented minor of None \<Rightarrow> Unmodelled
         | Some m \<Rightarrow> Returned (major @ [dot] @ m @ lit ''.0''))
      else if bumpType = lit ''patch'' then
        (case incremented patch of None \<Rightarrow> Unmodelled
         | Some p \<Rightarrow> Returned (major @ [dot] @ minor @ [dot] @ p))
      else Exited 1)"

definition bumpVersion :: "ustring \<Rightarrow> fs \<Rightarrow> ustring outcome \<times> fs" where
  "bumpVersion bumpType st =
     (case project_version_json st of
        Missing \<Rightarrow> (Thrown ENOENT, st)
      | Malformed \<Rightarrow> (Thrown SyntaxError, st)
      | Doc versionData \<Rightarrow>
          (case versionData k_version of
             Some (JStr v) \<Rightarrow>
               (case versionRegex v of
                  None \<Rightarrow> (Thrown InvalidVersionFormat, st)
                | Some (major, minor, patch, _) \<Rightarrow>
                    if bumpType = [] then
                      (Exited 1, st\<lparr>console := console st @ [(ERROR, SpecifyVersionType)]\<rparr>)
                    else
                      (case nextVersion bumpType major minor patch of
                         Returned next \<Rightarrow>
                           (Returned next,
                            st\<lparr>project_version_json := Doc (versionData(k_version \<mapsto> JStr next))\<rparr>)
                       | Exited code \<Rightarrow>
                           (Exited code,
                            st\<lparr>console := console st @ [(ERROR, VersionTypeNonRecognized)]\<rparr>)
                       | other \<Rightarrow> (other, st)))
           | _ \<Rightarrow> (Thrown TypeError, st)))"

section \<open>fetch.ts\<close>







section \<open>sync.ts\<close>

text \<open>
  \<open>/(version\s*=\s*")[^"]*(")/\<close> tried at the start of a string: the first capture, the
  text between the quotes and the text after the closing quote, or \<open>None\<close> when the
  expression does not match there. The second capture is always the closing quote. Each
  greedy run is followed by a character outside its class (\<open>=\<close> and \<open>"\<close> are not white
  space, and \<open>[^"]*\<close> is followed by \<open>"\<close>), so a shorter run never matches where the
  longest does not, and the matcher needs no backtracking.
\<close>

definition strip_prefix :: "ustring \<Rightarrow> ustring \<Rightarrow> ustring option" where
  "strip_prefix p s = (if take (length p) s = p then Some (drop (length p) s) else None)"

definition not_dquote :: "nat \<Rightarrow> bool" where
  "not_dquote c \<longleftrightarrow> c \<noteq> dquote"

definition match_here :: "ustring \<Rightarrow> (ustring \<times> ustring \<times> ustring) option" where
  "match_here s =
     Option.bind (strip_prefix (lit ''version'') s) (\<lambda>s1.
     Option.bind (expect equals (dropWhile is_space s1)) (\<lambda>s2.
     Option.bind (expect dquote (dropWhile is_space s2)) (\<lambda>s3.
     Option.bind (expect dquote (dropWhile not_dquote s3)) (\<lambda>post.
     Some (lit ''version'' @ takeWhile is_space s1 @ [equals] @ takeWhile is_space s2 @ [dquote],
           takeWhile not_dquote s3, post)))))"

text \<open>
  The expression has no \<open>g\<close> flag: \<open>replace\<close> takes the leftmost match. \<open>search\<close> tries
  every start position from left to right and returns the text before the match with
  the three parts of the match.
\<close>

fun search :: "ustring \<Rightarrow> ustring \<Rightarrow> (ustring \<times> ustring \<times> ustring \<times> ustring) option" where
  "search before [] =
     (case match_here [] of
        Some (head, val, post) \<Rightarrow> Some (before, head, val, post)
      | None \<Rightarrow> None)"
| "search before (c # cs) =
     (case match_here (c # cs) of
        Some (head, val, post) \<Rightarrow> Some (before, head, val, post)
      | None \<Rightarrow> search (before @ [c]) cs)"

text \<open>
  The replacement template of \<open>String.prototype.replace\<close>, as ECMAScript's
  \<open>GetSubstitution\<close> expands it: \<open>$$\<close> is a dollar sign, \<open>$&\<close> the match, \<open>$`\<close> and
  \<open>$'\<close> the text before and after it, \<open>$n\<close> and \<open>$nn\<close> a capture. Two digits are a
  capture index only when the expression has that many captures; otherwise the first
  digit alone is the index and the second is literal text. An index that names no
  capture, \<open>$<\<close> (the expression has no named group) and a dollar sign before anything
  else stand for themselves.
\<close>

fun get_substitution :: "ustring \<Rightarrow> ustring \<Rightarrow> nat \<Rightarrow> ustring list \<Rightarrow> ustring \<Rightarrow> ustring" where
  "get_substitution matched str position captures [] = []"
| "get_substitution matched str position captures [c] = [c]"
| "get_substitution matched str position captures (c # d # t) =
     (if c \<noteq> dollar then c # get_substitution matched str position captures (d # t)
      else if d = dollar then dollar # get_substitution matched str position captures t
      else if d = backtick then
        take position str @ get_substitution matched str position captures t
      else if d = ampersand then matched @ get_substitution matched str position captures t
      else if d = apostrophe then
        drop (min (position + length matched) (length str)) str @
        get_substitution matched str position captures t
      else if is_digit d then
        (case t of
           [] \<Rightarrow>
             (if 1 \<le> d - 48 \<and> d - 48 \<le> length captures then captures ! (d - 48 - 1)
              else [dollar, d])
         | d2 # t2 \<Rightarrow>
             if is_digit d2 \<and> 10 * (d - 48) + (d2 - 48) \<le> length captures then
               (if 1 \<le> 10 * (d - 48) + (d2 - 48)
                then captures ! (10 * (d - 48) + (d2 - 48) - 1)
                else [dollar, d, d2]) @
               get_substitution matched str position captures t2
             else
               (if 1 \<le> d - 48 \<and> d - 48 \<le> length captures then captures ! (d - 48 - 1)
                else [dollar, d]) @
               get_substitution matched str position captures (d2 # t2))
      else if d = less_than then
        dollar # less_than # get_substitution matched str position captures t
      else dollar # get_substitution matched str position captures (d # t))"

text \<open>\<open>cargoToml.replace(/(version\s*=\s*")[^"]*(")/, template)\<close>.\<close>

definition replace_version :: "ustring \<Rightarrow> ustring \<Rightarrow> ustring" where
  "replace_version str template =
     (case search [] str of
        None \<Rightarrow> str
      | Some (before, head, val, post) \<Rightarrow>
          before @
          get_substitution (head @ val @ [dquote]) str (length before) [head, [dquote]] template @
          post)"

text \<open>
  The version read from the record is not validated by \<open>syncVersion\<close> and need not be a
  string: the template literal turns it into one.
\<close>

definition template_string :: "jv option \<Rightarrow> ustring option" where
  "template_string x =
     (case x of
        None \<Rightarrow> Some (lit ''undefined'')
      | Some JNull \<Rightarrow> Some (lit ''null'')
      | Some (JBool b) \<Rightarrow> Some (if b then lit ''true'' else lit ''false'')
      | Some (JNum n) \<Rightarrow> number_to_string n
      | Some (JStr s) \<Rightarrow> Some s
      | Some (JArr xs) \<Rightarrow> None
      | Some (JObj kvs) \<Rightarrow> None)"

definition syncVersion :: "fs \<Rightarrow> unit outcome \<times> fs" where
  "syncVersion st =
     (case project_version_json st of
        Missing \<Rightarrow> (Thrown ENOENT, st)
      | Malformed \<Rightarrow> (Thrown SyntaxError, st)
      | Doc record \<Rightarrow>
          (case package_json st of
             Missing \<Rightarrow> (Thrown ENOENT, st)
           | Malformed \<Rightarrow> (Thrown SyntaxError, st)
           | Doc pkgJson \<Rightarrow>
               (let st1 = st\<lparr>package_json := Doc (pkgJson(k_version := record k_version))\<rparr> in
                case cargo_toml st1 of
                  None \<Rightarrow> (Thrown ENOENT, st1)
                | Some cargoToml \<Rightarrow>
                    (case template_string (record k_version) of
                       None \<Rightarrow> (Unmodelled, st1)
                     | Some versionString \<Rightarrow>
                         (Returned (),
                          st1\<lparr>cargo_toml :=
                            Some (replace_version cargoToml
                              ([dollar, 49] @ versionString @ [dollar, 50]))\<rparr>)))))"

text \<open>
  The language of the regular expression, written out: \<open>version\<close>, white space, \<open>=\<close>,
  white space and an opening quote make the head of an assignment; the value is the
  text up to the next quote. The value of the first assignment of a document is what
  \<open>search\<close> finds between the quotes.
\<close>

definition assignment_head :: "ustring \<Rightarrow> bool" where
  "assignment_head h \<longleftrightarrow>
     (\<exists>ws1 ws2. list_all is_space ws1 \<and> list_all is_space ws2 \<and>
        h = lit ''version'' @ ws1 @ [equals] @ ws2 @ [dquote])"

definition version_assignment :: "ustring \<Rightarrow> bool" where
  "version_assignment w \<longleftrightarrow>
     (\<exists>h val. assignment_head h \<and> dquote \<notin> set val \<and> w = h @ val @ [dquote])"

definition first_version_value :: "ustring \<Rightarrow> ustring option" where
  "first_version_value doc =
     (case search [] doc of None \<Rightarrow> None | Some (before, head, val, post) \<Rightarrow> Some val)"

section \<open>postinstall.ts\<close>

text \<open>
  The script runs once, from top to bottom, and then handles the one event that
  \<open>https.get\<close> (of \<open>follow-redirects\<close>) delivers: a response, with the status code of the
  last response after redirects, or an \<open>error\<close> event with its message. Its inputs are
  the version record file, \<open>process.platform\<close>, the directory \<open>out-tsc/bin\<close>, whether
  \<open>mkdirSync\<close> succeeds, and that event. It leaves its console messages and the files it
  created, each with its directory, name and mode. It returns when it runs to its end
  (the process then exits with code 0) and throws on an exception that nothing catches.
\<close>

datatype http_event = Response nat | RequestError ustring

record install_run =
  messages :: "(level \<times> message) list"
  downloads :: "(ustring \<times> ustring \<times> nat) list"

definition binary_name :: "ustring \<Rightarrow> ustring" where
  "binary_name platform =
     (if platform = lit ''win32'' then lit ''devapack-x86_64-pc-windows-msvc.exe''
      else if platform = lit ''darwin'' then lit ''devapack-x86_64-apple-darwin''
      else if platform = lit ''linux'' then lit ''devapack-x86_64-unknown-linux-gnu''
      else [])"

definition download_url :: "ustring \<Rightarrow> ustring \<Rightarrow> ustring" where
  "download_url versionString binaryName =
     lit ''https://github.com/devaloop-labs/devapack/releases/download/v'' @ versionString @
     lit ''/'' @ binaryName"

text \<open>The callback of \<open>https.get\<close> and its \<open>error\<close> handler; mode \<open>0o755\<close> is 493.\<close>

definition on_event :: "ustring \<Rightarrow> ustring \<Rightarrow> http_event \<Rightarrow> install_run \<Rightarrow> install_run" where
  "on_event destDir binaryName event run =
     (case event of
        RequestError msg \<Rightarrow> run\<lparr>messages := messages run @ [(ERROR, RequestFailed msg)]\<rparr>
      | Response statusCode \<Rightarrow>
          if statusCode = 404 then run\<lparr>messages := messages run @ [(WARN, AssetNotFound)]\<rparr>
          else if statusCode \<noteq> 200 then
            run\<lparr>messages := messages run @ [(ERROR, HttpFailed statusCode)]\<rparr>
          else
            run\<lparr>messages := messages run @ [(LOG, Downloaded binaryName destDir)],
                downloads := downloads run @ [(destDir, binaryName, 493)]\<rparr>)"

definition postinstall ::
    "jobject json_file \<Rightarrow> ustring \<Rightarrow> ustring \<Rightarrow> bool \<Rightarrow> http_event \<Rightarrow> unit outcome \<times> install_run" where
  "postinstall projectVersion platform destDir mkdir_ok event =
     (let nothing = \<lparr>messages = [], downloads = []\<rparr> in
      case projectVersion of
        Missing \<Rightarrow> (Thrown ENOENT, nothing)
      | Malformed \<Rightarrow> (Thrown SyntaxError, nothing)
      | Doc record \<Rightarrow>
          if binary_name platform \<noteq> [] then
            (case template_string (record k_version) of
               None \<Rightarrow> (Unmodelled, nothing)
             | Some versionString \<Rightarrow>
                 if \<not> mkdir_ok then (Thrown MkdirFailed, nothing)
                 else
                   (Returned (),
                    on_event destDir (binary_name platform) event
                      \<lparr>messages =
                         [(LOG, Downloading (binary_name platform)
                                  (download_url versionString (binary_name platform)))],
                       downloads = []\<rparr>))
          else (Returned (), \<lparr>messages = [(ERROR, UnsupportedPlatform platform)], downloads = []\<rparr>))"

text \<open>
  The three ways a download fails, in the words of the specification: a 404, any other
  status that is not a 2xx status, and a transport error.
\<close>

definition is_2xx :: "nat \<Rightarrow> bool" where
  "is_2xx statusCode \<longleftrightarrow> 200 \<le> statusCode \<and> statusCode < 300"



section \<open>copy-to-binary.ts\<close>

text \<open>
  What the script takes from Node: the working directory, the functions of \<open>path\<close> it
  calls, the default source \<open>path.resolve(__dirname, "..", "..", "..",
  "project-version.json")\<close>, the two questions it asks the file system, and whether
  creating the directory and copying the file goes through without an exception.
\<close>

record node_env =
  process_cwd :: ustring
  default_source :: ustring
  path_resolve :: "ustring \<Rightarrow> ustring"
  path_dirname :: "ustring \<Rightarrow> ustring"
  path_extname :: "ustring \<Rightarrow> ustring"
  path_join :: "ustring \<Rightarrow> ustring \<Rightarrow> ustring"
  fs_existsSync :: "ustring \<Rightarrow> bool"
  fs_isFile :: "ustring \<Rightarrow> bool"
  copy_succeeds :: "ustring \<Rightarrow> ustring \<Rightarrow> bool"

record args =
  sourceArg :: "ustring option"
  binaryArg :: "ustring option"
  outDirArg :: "ustring option"

text \<open>
  The loop over \<open>process.argv.slice(2)\<close>. A flag takes the next element as its value,
  \<open>undefined\<close> when there is none. \<open>--help\<close> ends the process with code 0, an unknown
  argument with code 1.
\<close>

definition next_arg :: "ustring list \<Rightarrow> ustring option" where
  "next_arg rest = (case rest of [] \<Rightarrow> None | v # _ \<Rightarrow> Some v)"

fun parse_args :: "ustring list \<Rightarrow> args \<Rightarrow> (nat \<times> (level \<times> message) list) + args" where
  "parse_args [] acc = Inr acc"
| "parse_args (a # rest) acc =
     (if a = lit ''--source'' then parse_args (drop 1 rest) (acc\<lparr>sourceArg := next_arg rest\<rparr>)
      else if a = lit ''--binary'' then parse_args (drop 1 rest) (acc\<lparr>binaryArg := next_arg rest\<rparr>)
      else if a = lit ''--out-dir'' then parse_args (drop 1 rest) (acc\<lparr>outDirArg := next_arg rest\<rparr>)
      else if a = lit ''--help'' \<or> a = lit ''-h'' then Inl (0, [])
      else Inl (1, [(ERROR, UnknownArg a)]))"

text \<open>
  A string that may be \<open>undefined\<close> is truthy when it is there and not empty;
  \<open>if (binaryArg)\<close>, \<open>else if (outDirArg)\<close> and \<open>sourceArg ? ... : ...\<close> test that.
\<close>

definition truthy_arg :: "ustring option \<Rightarrow> ustring option" where
  "truthy_arg x = (case x of None \<Rightarrow> None | Some s \<Rightarrow> if s = [] then None else Some s)"

text \<open>The destination directory, \<open>string | null\<close> in the source.\<close>

definition resolve_destDir :: "node_env \<Rightarrow> args \<Rightarrow> ustring option" where
  "resolve_destDir env a =
     (case truthy_arg (binaryArg a) of
        Some b \<Rightarrow>
          (let binPath = path_resolve env b in
           if fs_existsSync env binPath \<and> fs_isFile env binPath then Some (path_dirname env binPath)
           else if path_extname env binPath \<noteq> [] then Some (path_dirname env binPath)
           else Some binPath)
      | None \<Rightarrow>
          (case truthy_arg (outDirArg a) of
             Some out \<Rightarrow> Some (path_resolve env out)
           | None \<Rightarrow> Some (process_cwd env)))"

record copy_run =
  exit_code :: nat
  printed :: "(level \<times> message) list"
  copied :: "(ustring \<times> ustring) option"

definition copy_to_binary :: "node_env \<Rightarrow> ustring list \<Rightarrow> copy_run" where
  "copy_to_binary env argv =
     (case parse_args argv \<lparr>sourceArg = None, binaryArg = None, outDirArg = None\<rparr> of
        Inl (code, out) \<Rightarrow> \<lparr>exit_code = code, printed = out, copied = None\<rparr>
      | Inr a \<Rightarrow>
          (let sourcePath =
                 (case truthy_arg (sourceArg a) of
                    Some s \<Rightarrow> path_resolve env s
                  | None \<Rightarrow> default_source env)
           in
           if \<not> fs_existsSync env sourcePath then
             \<lparr>exit_code = 2, printed = [(ERROR, SourceNotFound sourcePath)], copied = None\<rparr>
           else
             (case truthy_arg (resolve_destDir env a) of
                None \<Rightarrow>
                  \<lparr>exit_code = 3, printed = [(ERROR, DestinationUnresolved)], copied = None\<rparr>
              | Some destDir \<Rightarrow>
                  (let destPath = path_join env destDir (lit ''project-version.json'') in
                   if copy_succeeds env sourcePath destDir then
                     \<lparr>exit_code = 0, printed = [(LOG, Copied destPath)],
                        copied = Some (sourcePath, destPath)\<rparr>
                   else \<lparr>exit_code = 4, printed = [(ERROR, CopyFailed)], copied = None\<rparr>))))"

text \<open>
  What Node promises of its functions, as far as the script relies on it:
  \<open>path.resolve\<close> and \<open>process.cwd\<close> return an absolute path and \<open>path.dirname\<close>
  returns at least \<open>.\<close>, so none of them returns the empty string.
\<close>

definition node_paths :: "node_env \<Rightarrow> bool" where
  "node_paths env \<longleftrightarrow>
     process_cwd env \<noteq> [] \<and> (\<forall>p. path_resolve env p \<noteq> []) \<and> (\<forall>p. path_dirname env p \<noteq> [])"

section \<open>Example states\<close>

text \<open>A file system that holds a version record and nothing else.\<close>

definition version_file :: "jobject \<Rightarrow> fs" where
  "version_file r =
     \<lparr>project_version_json = Doc r, package_json = Missing, cargo_toml = None, console = []\<rparr>"

definition record_1_2_3_beta :: jobject where
  "record_1_2_3_beta = [k_version \<mapsto> JStr (lit ''1.2.3-beta.1''), k_build \<mapsto> JNum 5]"

definition record_2_53 :: jobject where
  "record_2_53 = [k_version \<mapsto> JStr (lit ''9007199254740992.0.0''), k_build \<mapsto> JNum 5]"

definition record_of_version :: "ustring \<Rightarrow> jobject" where
  "record_of_version v = [k_version \<mapsto> JStr v, k_build \<mapsto> JNum 5]"

definition record_1_2_3 :: jobject where
  "record_1_2_3 = [k_version \<mapsto> JStr (lit ''1.2.3''), k_build \<mapsto> JNum 5]"



text \<open>
  A \<open>Cargo.toml\<close> with a version assignment after its name, one with no version
  assignment, a \<open>package.json\<close>, and the file system that holds all three files.
\<close>

definition cargo_before :: ustring where
  "cargo_before = lit ''[package]'' @ [10] @ lit ''name = '' @ [dquote] @ lit ''devapack'' @ [dquote, 10]"

definition cargo_head :: ustring where
  "cargo_head = lit ''version = '' @ [dquote]"

definition cargo_after :: ustring where
  "cargo_after = [10] @ lit ''edition = '' @ [dquote] @ lit ''2021'' @ [dquote, 10]"

definition cargo_with :: "ustring \<Rightarrow> ustring" where
  "cargo_with v = cargo_before @ cargo_head @ v @ dquote # cargo_after"

definition cargo_workspace :: ustring where
  "cargo_workspace = lit ''[workspace]'' @ [10] @ lit ''members = []'' @ [10]"

definition package_0_0_1 :: jobject where
  "package_0_0_1 =
     [lit ''name'' \<mapsto> JStr (lit ''@devaloop/devapack''),
      k_version \<mapsto> JStr (lit ''0.0.1''),
      lit ''bin'' \<mapsto> JObj [(lit ''devapack'', JStr (lit ''out-tsc/bin/index.js''))]]"

definition project_files :: "jobject \<Rightarrow> jobject \<Rightarrow> ustring \<Rightarrow> fs" where
  "project_files r pkg cargo =
     \<lparr>project_version_json = Doc r, package_json = Doc pkg, cargo_toml = Some cargo, console = []\<rparr>"

text \<open>
  A Node environment for the examples: the working directory \<open>/work\<close>, POSIX-like path
  functions, a file system with the version record of the repository and the binary
  \<open>/opt/app/bin/tool\<close>, and copies that succeed.
\<close>

abbreviation slash :: nat where "slash \<equiv> 47"

definition example_resolve :: "ustring \<Rightarrow> ustring" where
  "example_resolve p =
     (case p of [] \<Rightarrow> lit ''/work'' | c # _ \<Rightarrow> if c = slash then p else lit ''/work/'' @ p)"

definition example_dirname :: "ustring \<Rightarrow> ustring" where
  "example_dirname p =
     (let d = rev (drop 1 (dropWhile (\<lambda>c. c \<noteq> slash) (rev p)))
      in if d \<noteq> [] then d else if slash \<in> set p then [slash] else [dot])"

definition example_extname :: "ustring \<Rightarrow> ustring" where
  "example_extname p =
     (let base = rev (takeWhile (\<lambda>c. c \<noteq> slash) (rev p))
      in if dot \<in> set (drop 1 base) then dot # rev (takeWhile (\<lambda>c. c \<noteq> dot) (rev base)) else [])"

definition example_env :: node_env where
  "example_env =
     \<lparr>process_cwd = lit ''/work'',
      default_source = lit ''/repo/project-version.json'',
      path_resolve = example_resolve,
      path_dirname = example_dirname,
      path_extname = example_extname,
      path_join = (\<lambda>d f. d @ [slash] @ f),
      fs_existsSync = (\<lambda>p. p \<in> set [lit ''/repo/project-version.json'', lit ''/opt/app/bin/tool'',
                                     lit ''/opt/app/bin'', lit ''/work'']),
      fs_isFile = (\<lambda>p. p \<in> set [lit ''/repo/project-version.json'', lit ''/opt/app/bin/tool'']),
      copy_succeeds = (\<lambda>source dir. True)\<rparr>"

definition no_args :: args where
  "no_args = \<lparr>sourceArg = None, binaryArg = None, outDirArg = None\<rparr>"

section \<open>Numbers and their decimal strings\<close>

lemma dec_digits: "digits (dec n)"
proof (induction n rule: dec.induct)
  case (1 n)
  show ?case
  proof (cases "n < 10")
    case True
    then show ?thesis by (simp add: digits_def is_digit_def dec.simps)
  next
    case False
    with 1 have "digits (dec (n div 10))" by simp
    moreover have "n mod 10 < 10" by simp
    then have "is_digit (48 + n mod 10)" unfolding is_digit_def by linarith
    ultimately show ?thesis using False by (subst dec.simps) (simp add: digits_def)
  qed
qed

lemma incremented_exact:
  assumes "digit_value s < 2 ^ 53"
  shows "incremented s = Some (dec (digit_value s + 1))"
  using assms by (simp add: incremented_def to_number_def js_incr_def rne53_def number_to_string_def)















section \<open>The version grammar and its matcher\<close>

lemma digit_run_append:
  assumes "digits ds" and "case rest of [] \<Rightarrow> True | c # _ \<Rightarrow> \<not> is_digit c"
  shows "digit_run (ds @ rest) = Some (ds, rest)"
proof -
  from assms(1) have all: "\<forall>x\<in>set ds. is_digit x" and ne: "ds \<noteq> []"
    by (simp_all add: digits_def list_all_iff)
  from assms(2) have "takeWhile is_digit rest = []" "dropWhile is_digit rest = rest"
    by (cases rest; simp)+
  with all ne show ?thesis
    by (simp add: digit_run_def takeWhile_append2 dropWhile_append2)
qed

lemma digit_run_SomeD:
  assumes "digit_run s = Some (d, r)"
  shows "s = d @ r \<and> digits d \<and> (case r of [] \<Rightarrow> True | c # _ \<Rightarrow> \<not> is_digit c)"
proof -
  from assms have d: "d = takeWhile is_digit s" and r: "r = dropWhile is_digit s" and ne: "d \<noteq> []"
    by (auto simp: digit_run_def Let_def split: if_splits)
  have "case dropWhile is_digit s of [] \<Rightarrow> True | c # _ \<Rightarrow> \<not> is_digit c"
  proof (cases "dropWhile is_digit s")
    case Nil
    show ?thesis by (simp only: Nil list.case)
  next
    case (Cons c cs)
    have "\<not> is_digit (hd (dropWhile is_digit s))"
      by (rule hd_dropWhile) (simp only: Cons list.distinct not_False_eq_True)
    then show ?thesis by (simp add: Cons)
  qed
  moreover have "list_all is_digit (takeWhile is_digit s)"
    by (auto simp: list_all_iff dest: set_takeWhileD)
  ultimately show ?thesis using d r ne by (simp add: digits_def)
qed

text \<open>The matcher accepts exactly the language of the regular expression.\<close>

lemma versionRegex_text:
  assumes "version_parts major minor patch pre"
  shows "versionRegex (version_text major minor patch pre) = Some (major, minor, patch, pre)"
proof -
  from assms have dg: "digits major" "digits minor" "digits patch"
    and p: "case pre of None \<Rightarrow> True | Some p \<Rightarrow> p \<noteq> [] \<and> list_all is_prerelease_char p"
    by (simp_all add: version_parts_def)
  let ?suf = "case pre of None \<Rightarrow> [] | Some p \<Rightarrow> hyphen # p"
  have nd: "\<not> is_digit dot" "\<not> is_digit hyphen" by (simp_all add: is_digit_def)
  have 1: "digit_run (major @ dot # minor @ dot # patch @ ?suf) =
      Some (major, dot # minor @ dot # patch @ ?suf)"
    using digit_run_append [OF dg(1), of "dot # minor @ dot # patch @ ?suf"] nd by simp
  have 2: "digit_run (minor @ dot # patch @ ?suf) = Some (minor, dot # patch @ ?suf)"
    using digit_run_append [OF dg(2), of "dot # patch @ ?suf"] nd by simp
  have 3: "digit_run (patch @ ?suf) = Some (patch, ?suf)"
    using digit_run_append [OF dg(3), of ?suf] nd by (cases pre) simp_all
  have 4: "prerelease_suffix ?suf = Some pre"
    using p by (cases pre) (simp_all add: prerelease_suffix_def)
  show ?thesis
    by (simp add: versionRegex_def version_text_def 1 2 3 4 expect_def)
qed

lemma versionRegex_SomeD:
  assumes "versionRegex s = Some (major, minor, patch, pre)"
  shows "version_parts major minor patch pre \<and> s = version_text major minor patch pre"
proof -
  from assms obtain r1 r2 r3 r4 r5 where
    a: "digit_run s = Some (major, r1)" "expect dot r1 = Some r2"
       "digit_run r2 = Some (minor, r3)" "expect dot r3 = Some r4"
       "digit_run r4 = Some (patch, r5)" "prerelease_suffix r5 = Some pre"
    by (auto simp: versionRegex_def split: Option.bind_splits)
  from a(2) have r1: "r1 = dot # r2" by (auto simp: expect_def split: list.splits if_splits)
  from a(4) have r3: "r3 = dot # r4" by (auto simp: expect_def split: list.splits if_splits)
  from a(6) have r5: "r5 = (case pre of None \<Rightarrow> [] | Some p \<Rightarrow> hyphen # p)"
    and p: "case pre of None \<Rightarrow> True | Some p \<Rightarrow> p \<noteq> [] \<and> list_all is_prerelease_char p"
    by (auto simp: prerelease_suffix_def split: list.splits if_splits)
  from digit_run_SomeD [OF a(1)] digit_run_SomeD [OF a(3)] digit_run_SomeD [OF a(5)] r1 r3 r5 p
  show ?thesis by (simp add: version_parts_def version_text_def)
qed

lemma versionRegex_iff:
  "versionRegex s = Some (major, minor, patch, pre) \<longleftrightarrow>
   version_parts major minor patch pre \<and> s = version_text major minor patch pre"
  using versionRegex_SomeD versionRegex_text by blast


section \<open>bumpVersion\<close>

lemma lit_neq [simp]:
  "lit ''major'' \<noteq> []" "lit ''minor'' \<noteq> []" "lit ''patch'' \<noteq> []"
  "lit ''minor'' \<noteq> lit ''major''" "lit ''patch'' \<noteq> lit ''major''" "lit ''patch'' \<noteq> lit ''minor''"
  by (simp_all add: lit_def)

lemma is_release_text:
  "version_parts major minor patch None \<Longrightarrow> is_release (version_text major minor patch None)"
  by (simp add: is_release_def versionRegex_text)

lemma digits_zero: "digits [48]"
  by (simp add: digits_def is_digit_def)

lemma bump_major:
  assumes "project_version_json st = Doc versionData"
    and "versionData k_version = Some (JStr (version_text major minor patch pre))"
    and "version_parts major minor patch pre"
    and "digit_value major < 2 ^ 53"
  shows "bumpVersion (lit ''major'') st =
           (Returned (dec (digit_value major + 1) @ lit ''.0.0''),
            st\<lparr>project_version_json :=
                 Doc (versionData(k_version \<mapsto> JStr (dec (digit_value major + 1) @ lit ''.0.0'')))\<rparr>)"
  using assms
  by (simp add: bumpVersion_def versionRegex_text nextVersion_def incremented_exact)

lemma bump_minor:
  assumes "project_version_json st = Doc versionData"
    and "versionData k_version = Some (JStr (version_text major minor patch pre))"
    and "version_parts major minor patch pre"
    and "digit_value minor < 2 ^ 53"
  shows "bumpVersion (lit ''minor'') st =
           (Returned (major @ [dot] @ dec (digit_value minor + 1) @ lit ''.0''),
            st\<lparr>project_version_json :=
                 Doc (versionData(k_version \<mapsto>
                   JStr (major @ [dot] @ dec (digit_value minor + 1) @ lit ''.0'')))\<rparr>)"
  using assms
  by (simp add: bumpVersion_def versionRegex_text nextVersion_def incremented_exact)

lemma bump_patch:
  assumes "project_version_json st = Doc versionData"
    and "versionData k_version = Some (JStr (version_text major minor patch pre))"
    and "version_parts major minor patch pre"
    and "digit_value patch < 2 ^ 53"
  shows "bumpVersion (lit ''patch'') st =
           (Returned (major @ [dot] @ minor @ [dot] @ dec (digit_value patch + 1)),
            st\<lparr>project_version_json :=
                 Doc (versionData(k_version \<mapsto>
                   JStr (major @ [dot] @ minor @ [dot] @ dec (digit_value patch + 1))))\<rparr>)"
  using assms
  by (simp add: bumpVersion_def versionRegex_text nextVersion_def incremented_exact)

lemma release_major: "is_release (dec n @ lit ''.0.0'')"
  using is_release_text [of "dec n" "[48]" "[48]"]
  by (simp add: version_parts_def dec_digits digits_zero version_text_def lit_def)

lemma release_minor: "digits major \<Longrightarrow> is_release (major @ [dot] @ dec n @ lit ''.0'')"
  using is_release_text [of major "dec n" "[48]"]
  by (simp add: version_parts_def dec_digits digits_zero version_text_def lit_def)

lemma release_patch:
  "digits major \<Longrightarrow> digits minor \<Longrightarrow> is_release (major @ [dot] @ minor @ [dot] @ dec n)"
  using is_release_text [of major minor "dec n"]
  by (simp add: version_parts_def dec_digits version_text_def)

lemma incremented_SomeD: "incremented s = Some m \<Longrightarrow> \<exists>n. m = dec n"
  by (auto simp: incremented_def number_to_string_def split: option.splits if_splits)

lemma nextVersion_release:
  assumes "nextVersion bumpType major minor patch = Returned v"
    and "digits major" and "digits minor"
  shows "is_release v"
proof -
  consider (major) m where "incremented major = Some m" "v = m @ lit ''.0.0''"
    | (minor) m where "incremented minor = Some m" "v = major @ [dot] @ m @ lit ''.0''"
    | (patch) p where "incremented patch = Some p" "v = major @ [dot] @ minor @ [dot] @ p"
    using assms(1) by (auto simp: nextVersion_def split: if_splits option.splits)
  then show ?thesis
  proof cases
    case major
    from incremented_SomeD [OF major(1)] obtain n where "m = dec n" ..
    with major(2) release_major [of n] show ?thesis by simp
  next
    case minor
    from incremented_SomeD [OF minor(1)] obtain n where "m = dec n" ..
    with minor(2) release_minor [OF assms(2), of n] show ?thesis by simp
  next
    case patch
    from incremented_SomeD [OF patch(1)] obtain n where "p = dec n" ..
    with patch(2) release_patch [OF assms(2,3), of n] show ?thesis by simp
  qed
qed

text \<open>Whatever \<open>bumpVersion\<close> returns is a release version, and it is the version that is stored.\<close>

lemma bumpVersion_returns_release:
  assumes "bumpVersion bumpType st = (Returned v, st')"
  shows "is_release v \<and>
         (\<exists>versionData. project_version_json st' = Doc versionData \<and>
            versionData k_version = Some (JStr v))"
proof -
  from assms obtain versionData old major minor patch pre where
    doc: "project_version_json st = Doc versionData"
    and m: "versionRegex old = Some (major, minor, patch, pre)"
    and n: "nextVersion bumpType major minor patch = Returned v"
    and st': "st' = st\<lparr>project_version_json := Doc (versionData(k_version \<mapsto> JStr v))\<rparr>"
    by (auto simp: bumpVersion_def split: json_file.splits option.splits jv.splits if_splits
        outcome.splits)
  from versionRegex_SomeD [OF m] have "digits major" "digits minor"
    by (simp_all add: version_parts_def)
  from nextVersion_release [OF n this] st' show ?thesis by simp
qed

text \<open>
  Claim C1, as amended. Let the stored version be \<open>MAJOR.MINOR.PATCH\<close> with an optional
  prerelease suffix, as the regular expression of \<open>bump.ts\<close> reads it. When the component
  that is incremented is below \<open>2 ^ 53\<close>, \<open>bumpVersion\<close> returns and stores
  \<open>(MAJOR+1).0.0\<close> for \<open>major\<close>, \<open>MAJOR.(MINOR+1).0\<close> for \<open>minor\<close> and
  \<open>MAJOR.MINOR.(PATCH+1)\<close> for \<open>patch\<close>, where the incremented component is written
  in decimal and the components that are kept are copied as they were written. The new
  version carries no prerelease suffix, whether or not the old one had one.
\<close>

theorem bumpVersion_next:
  assumes "project_version_json st = Doc versionData"
    and "versionData k_version = Some (JStr (version_text major minor patch pre))"
    and "version_parts major minor patch pre"
  shows
    "(digit_value major < 2 ^ 53 \<longrightarrow>
        (let next = dec (digit_value major + 1) @ lit ''.0.0'' in
         bumpVersion (lit ''major'') st =
           (Returned next, st\<lparr>project_version_json := Doc (versionData(k_version \<mapsto> JStr next))\<rparr>) \<and>
         is_release next)) \<and>
     (digit_value minor < 2 ^ 53 \<longrightarrow>
        (let next = major @ [dot] @ dec (digit_value minor + 1) @ lit ''.0'' in
         bumpVersion (lit ''minor'') st =
           (Returned next, st\<lparr>project_version_json := Doc (versionData(k_version \<mapsto> JStr next))\<rparr>) \<and>
         is_release next)) \<and>
     (digit_value patch < 2 ^ 53 \<longrightarrow>
        (let next = major @ [dot] @ minor @ [dot] @ dec (digit_value patch + 1) in
         bumpVersion (lit ''patch'') st =
           (Returned next, st\<lparr>project_version_json := Doc (versionData(k_version \<mapsto> JStr next))\<rparr>) \<and>
         is_release next))"
proof -
  from assms(3) have d: "digits major" "digits minor" by (simp_all add: version_parts_def)
  show ?thesis
    unfolding Let_def
    using bump_major [OF assms] bump_minor [OF assms] bump_patch [OF assms]
      release_major release_minor [OF d(1)] release_patch [OF d]
    by blast
qed

text \<open>The theorem at the record \<open>{"version": "1.2.3-beta.1", "build": 5}\<close>.\<close>

theorem bumpVersion_next_witness:
  "bumpVersion (lit ''major'') (version_file record_1_2_3_beta) =
     (Returned (lit ''2.0.0''), version_file (record_1_2_3_beta(k_version \<mapsto> JStr (lit ''2.0.0'')))) \<and>
   bumpVersion (lit ''minor'') (version_file record_1_2_3_beta) =
     (Returned (lit ''1.3.0''), version_file (record_1_2_3_beta(k_version \<mapsto> JStr (lit ''1.3.0'')))) \<and>
   bumpVersion (lit ''patch'') (version_file record_1_2_3_beta) =
     (Returned (lit ''1.2.4''), version_file (record_1_2_3_beta(k_version \<mapsto> JStr (lit ''1.2.4'')))) \<and>
   is_release (lit ''2.0.0'') \<and> is_release (lit ''1.3.0'') \<and> is_release (lit ''1.2.4'')"
  using bumpVersion_next [of "version_file record_1_2_3_beta" record_1_2_3_beta
      "lit ''1''" "lit ''2''" "lit ''3''" "Some (lit ''beta.1'')"]
  by (simp add: version_file_def record_1_2_3_beta_def version_text_def version_parts_def
      digits_def is_digit_def is_prerelease_char_def is_word_def lit_def digit_value_def
      k_version_def k_build_def Let_def dec.simps)

text \<open>
  Claim C1 as it is written fails for a component of \<open>2 ^ 53\<close> or more, where
  \<open>+major + 1\<close> is rounded: the version \<open>9007199254740992.0.0\<close> matches the grammar, and
  its \<open>major\<close> bump returns \<open>9007199254740992.0.0\<close> again, not \<open>9007199254740993.0.0\<close>.
\<close>

theorem bumpVersion_major_counterexample:
  "versionRegex (lit ''9007199254740992.0.0'') =
     Some (lit ''9007199254740992'', lit ''0'', lit ''0'', None) \<and>
   fst (bumpVersion (lit ''major'') (version_file record_2_53)) =
     Returned (lit ''9007199254740992.0.0'') \<and>
   fst (bumpVersion (lit ''major'') (version_file record_2_53)) \<noteq>
     Returned (dec (digit_value (lit ''9007199254740992'') + 1) @ lit ''.0.0'')"
  by (simp add: bumpVersion_def version_file_def record_2_53_def versionRegex_def digit_run_def
      expect_def prerelease_suffix_def nextVersion_def incremented_def to_number_def js_incr_def
      rne53_def number_to_string_def is_digit_def lit_def digit_value_def k_version_def
      k_build_def Let_def dec.simps bitlen.simps)





section \<open>fetchVersion\<close>

lemma keys_distinct [simp]:
  "k_build \<noteq> k_version" "k_lastCommit \<noteq> k_build" "k_lastCommit \<noteq> k_version"
  "k_version \<noteq> k_build" "k_build \<noteq> k_lastCommit" "k_version \<noteq> k_lastCommit"
  by (simp_all add: k_version_def k_build_def k_lastCommit_def lit_def)






section \<open>The version assignment of Cargo.toml and its matcher\<close>

lemma kw_version: "lit ''version'' = [118, 101, 114, 115, 105, 111, 110]"
  by (simp add: lit_def)

lemma strip_prefix_append [simp]: "strip_prefix p (p @ s) = Some s"
  by (simp add: strip_prefix_def)

lemma strip_prefix_SomeD: "strip_prefix p s = Some r \<Longrightarrow> s = p @ r"
proof -
  assume "strip_prefix p s = Some r"
  then have "take (length p) s = p" "r = drop (length p) s"
    by (auto simp: strip_prefix_def split: if_splits)
  with append_take_drop_id [of "length p" s] show ?thesis by simp
qed

lemma expect_Cons [simp]: "expect c (c # s) = Some s"
  by (simp add: expect_def)

lemma expect_SomeD: "expect c s = Some r \<Longrightarrow> s = c # r"
  by (auto simp: expect_def split: list.splits if_splits)

lemma not_space [simp]: "\<not> is_space equals" "\<not> is_space dquote"
  by (simp_all add: is_space_def)

lemma spaces_then:
  assumes "list_all is_space ws" and "\<not> is_space c"
  shows "takeWhile is_space (ws @ c # r) = ws" and "dropWhile is_space (ws @ c # r) = c # r"
  using assms by (simp_all add: list_all_iff)

lemma value_then:
  assumes "dquote \<notin> set val"
  shows "takeWhile not_dquote (val @ dquote # r) = val"
    and "dropWhile not_dquote (val @ dquote # r) = dquote # r"
proof -
  from assms have "\<forall>x\<in>set val. not_dquote x" by (auto simp: not_dquote_def)
  then show "takeWhile not_dquote (val @ dquote # r) = val"
    and "dropWhile not_dquote (val @ dquote # r) = dquote # r"
    by (simp_all add: not_dquote_def)
qed

lemma match_here_complete:
  assumes "assignment_head h" and "dquote \<notin> set val"
  shows "match_here (h @ val @ dquote # post) = Some (h, val, post)"
proof -
  from assms(1) obtain ws1 ws2 where ws: "list_all is_space ws1" "list_all is_space ws2"
    and h: "h = lit ''version'' @ ws1 @ [equals] @ ws2 @ [dquote]"
    by (auto simp: assignment_head_def)
  have s: "h @ val @ dquote # post =
      lit ''version'' @ (ws1 @ equals # (ws2 @ dquote # (val @ dquote # post)))"
    by (simp add: h)
  show ?thesis
    unfolding match_here_def s
    by (simp add: spaces_then [OF ws(1)] spaces_then [OF ws(2)] value_then [OF assms(2)] h)
qed

lemma match_here_sound:
  assumes "match_here s = Some (h, val, post)"
  shows "assignment_head h \<and> dquote \<notin> set val \<and> s = h @ val @ dquote # post"
proof -
  from assms obtain s1 s2 s3 where
    a: "strip_prefix (lit ''version'') s = Some s1"
       "expect equals (dropWhile is_space s1) = Some s2"
       "expect dquote (dropWhile is_space s2) = Some s3"
       "expect dquote (dropWhile not_dquote s3) = Some post"
    and h: "h = lit ''version'' @ takeWhile is_space s1 @ [equals] @ takeWhile is_space s2 @ [dquote]"
    and v: "val = takeWhile not_dquote s3"
    by (auto simp: match_here_def split: Option.bind_splits)
  have 1: "s = lit ''version'' @ s1" using a(1) by (rule strip_prefix_SomeD)
  have 2: "s1 = takeWhile is_space s1 @ equals # s2"
    using expect_SomeD [OF a(2)] takeWhile_dropWhile_id [of is_space s1] by simp
  have 3: "s2 = takeWhile is_space s2 @ dquote # s3"
    using expect_SomeD [OF a(3)] takeWhile_dropWhile_id [of is_space s2] by simp
  have 4: "s3 = val @ dquote # post"
    using expect_SomeD [OF a(4)] takeWhile_dropWhile_id [of not_dquote s3] by (simp add: v)
  have "list_all is_space (takeWhile is_space s1)" "list_all is_space (takeWhile is_space s2)"
    by (auto simp: list_all_iff dest: set_takeWhileD)
  then have "assignment_head h" unfolding assignment_head_def h by blast
  moreover have "dquote \<notin> set val"
    unfolding v by (auto dest: set_takeWhileD simp: not_dquote_def)
  moreover have "s = h @ val @ dquote # post"
    by (subst 1, subst 2, subst 3, subst 4) (simp add: h)
  ultimately show ?thesis by blast
qed

lemma match_here_Nil [simp]: "match_here [] = None"
  by (simp add: match_here_def strip_prefix_def lit_def)

lemma head_quote:
  assumes "assignment_head h"
  shows "\<exists>a. h = a @ [dquote] \<and> dquote \<notin> set a"
proof -
  from assms obtain ws1 ws2 where ws: "list_all is_space ws1" "list_all is_space ws2"
    and h: "h = lit ''version'' @ ws1 @ [equals] @ ws2 @ [dquote]"
    by (auto simp: assignment_head_def)
  from ws have "dquote \<notin> set ws1" "dquote \<notin> set ws2"
    by (auto simp: list_all_iff)
  then have "dquote \<notin> set (lit ''version'' @ ws1 @ [equals] @ ws2)"
    by (simp add: kw_version)
  with h show ?thesis by simp
qed

lemma first_quote_unique:
  assumes "dquote \<notin> set a" and "dquote \<notin> set a'" and "a @ dquote # r = a' @ dquote # r'"
  shows "a = a' \<and> r = r'"
proof -
  from assms(1) have "takeWhile not_dquote (a @ dquote # r) = a"
    "dropWhile not_dquote (a @ dquote # r) = dquote # r" by (rule value_then)+
  moreover from assms(2) have "takeWhile not_dquote (a' @ dquote # r') = a'"
    "dropWhile not_dquote (a' @ dquote # r') = dquote # r'" by (rule value_then)+
  ultimately show ?thesis using assms(3) by simp
qed

text \<open>Whether the expression matches at the start depends on the text before the first quote only,
  once a second quote follows.\<close>

lemma match_here_two_quotes:
  assumes "dquote \<notin> set a" and "dquote \<notin> set b"
  shows "match_here (a @ dquote # b @ dquote # r) =
         (if assignment_head (a @ [dquote]) then Some (a @ [dquote], b, r) else None)"
proof (cases "assignment_head (a @ [dquote])")
  case True
  from match_here_complete [OF True assms(2), of r] True show ?thesis by simp
next
  case False
  have "match_here (a @ dquote # b @ dquote # r) = None"
  proof (cases "match_here (a @ dquote # b @ dquote # r)")
    case (Some m)
    obtain h v p where m: "m = (h, v, p)" by (cases m) auto
    from match_here_sound [OF Some [unfolded m]]
    have hd: "assignment_head h" and eq: "a @ dquote # b @ dquote # r = h @ v @ dquote # p"
      by simp_all
    from head_quote [OF hd] obtain a' where a': "h = a' @ [dquote]" "dquote \<notin> set a'" by blast
    from eq have "a @ dquote # (b @ dquote # r) = a' @ dquote # (v @ dquote # p)"
      by (simp add: a')
    from first_quote_unique [OF assms(1) a'(2) this] have "a = a'" by simp
    with hd a' False show ?thesis by simp
  qed simp
  with False show ?thesis by simp
qed

lemma search_sound:
  assumes "search b s = Some (b', h, v, p)"
  shows "\<exists>mid. b' = b @ mid \<and> s = mid @ h @ v @ dquote # p \<and>
           match_here (h @ v @ dquote # p) = Some (h, v, p) \<and>
           (\<forall>i<length mid. match_here (drop i s) = None)"
  using assms
proof (induction s arbitrary: b)
  case Nil
  then show ?case by simp
next
  case (Cons c cs)
  show ?case
  proof (cases "match_here (c # cs)")
    case (Some m)
    with Cons.prems have m: "match_here (c # cs) = Some (h, v, p)" and b: "b' = b"
      by (auto split: prod.splits)
    from match_here_sound [OF m] have "c # cs = h @ v @ dquote # p" by simp
    with m b show ?thesis by (intro exI [of _ "[]"]) simp
  next
    case None
    with Cons.prems have "search (b @ [c]) cs = Some (b', h, v, p)" by simp
    from Cons.IH [OF this] obtain mid where mid: "b' = (b @ [c]) @ mid"
      "cs = mid @ h @ v @ dquote # p" "match_here (h @ v @ dquote # p) = Some (h, v, p)"
      "\<forall>i<length mid. match_here (drop i cs) = None" by blast
    have "\<forall>i<length (c # mid). match_here (drop i (c # cs)) = None"
    proof (intro allI impI)
      fix i assume "i < length (c # mid)"
      then show "match_here (drop i (c # cs)) = None"
        using None mid(4) by (cases i) simp_all
    qed
    with mid(1,2,3) show ?thesis by (intro exI [of _ "c # mid"]) simp
  qed
qed

lemma search_found:
  assumes "\<forall>i<length mid. match_here (drop i (mid @ t)) = None"
    and "match_here t = Some (h, v, p)"
  shows "search b (mid @ t) = Some (b @ mid, h, v, p)"
  using assms
proof (induction mid arbitrary: b)
  case Nil
  then show ?case by (cases t) simp_all
next
  case (Cons c mid)
  from Cons.prems(1) have here: "match_here (c # mid @ t) = None" by force
  have "\<forall>i<length mid. match_here (drop i (mid @ t)) = None"
  proof (intro allI impI)
    fix i assume "i < length mid"
    then have "Suc i < length (c # mid)" by simp
    with Cons.prems(1) have "match_here (drop (Suc i) ((c # mid) @ t)) = None" by blast
    then show "match_here (drop i (mid @ t)) = None" by simp
  qed
  from Cons.IH [OF this Cons.prems(2), of "b @ [c]"] here show ?case by simp
qed

lemma search_None:
  "search b s = None \<longleftrightarrow> (\<forall>i\<le>length s. match_here (drop i s) = None)"
proof (induction s arbitrary: b)
  case Nil
  then show ?case by simp
next
  case (Cons c cs)
  show ?case
  proof (cases "match_here (c # cs)")
    case (Some m)
    then have "search b (c # cs) \<noteq> None" by (auto split: prod.splits)
    moreover have "\<not> (\<forall>i\<le>length (c # cs). match_here (drop i (c # cs)) = None)"
    proof
      assume "\<forall>i\<le>length (c # cs). match_here (drop i (c # cs)) = None"
      then have "match_here (drop 0 (c # cs)) = None" by blast
      with Some show False by simp
    qed
    ultimately show ?thesis by blast
  next
    case None
    have "(\<forall>i\<le>length (c # cs). match_here (drop i (c # cs)) = None) \<longleftrightarrow>
          (\<forall>i\<le>length cs. match_here (drop i cs) = None)"
    proof
      assume a: "\<forall>i\<le>length (c # cs). match_here (drop i (c # cs)) = None"
      show "\<forall>i\<le>length cs. match_here (drop i cs) = None"
      proof (intro allI impI)
        fix i assume "i \<le> length cs"
        then have "Suc i \<le> length (c # cs)" by simp
        with a have "match_here (drop (Suc i) (c # cs)) = None" by blast
        then show "match_here (drop i cs) = None" by simp
      qed
    next
      assume a: "\<forall>i\<le>length cs. match_here (drop i cs) = None"
      show "\<forall>i\<le>length (c # cs). match_here (drop i (c # cs)) = None"
      proof (intro allI impI)
        fix i assume "i \<le> length (c # cs)"
        then show "match_here (drop i (c # cs)) = None"
          using None a by (cases i) simp_all
      qed
    qed
    with None Cons.IH [of "b @ [c]"] show ?thesis by simp
  qed
qed

text \<open>No match anywhere means that no substring is a version assignment, and conversely.\<close>

lemma search_None_iff:
  "search [] doc = None \<longleftrightarrow> \<not> (\<exists>before w post. doc = before @ w @ post \<and> version_assignment w)"
proof
  assume none: "search [] doc = None"
  show "\<not> (\<exists>before w post. doc = before @ w @ post \<and> version_assignment w)"
  proof
    assume "\<exists>before w post. doc = before @ w @ post \<and> version_assignment w"
    then obtain before h val post where doc: "doc = before @ (h @ val @ [dquote]) @ post"
      and h: "assignment_head h" and v: "dquote \<notin> set val"
      by (auto simp: version_assignment_def)
    from match_here_complete [OF h v, of post] doc
    have "match_here (drop (length before) doc) \<noteq> None" by simp
    moreover have "length before \<le> length doc" by (simp add: doc)
    ultimately show False using none by (auto simp: search_None)
  qed
next
  assume no: "\<not> (\<exists>before w post. doc = before @ w @ post \<and> version_assignment w)"
  show "search [] doc = None"
  proof (cases "search [] doc")
    case (Some m)
    obtain b h v p where m: "m = (b, h, v, p)" by (cases m) auto
    from search_sound [OF Some [unfolded m]] obtain mid where
      "doc = mid @ h @ v @ dquote # p" "match_here (h @ v @ dquote # p) = Some (h, v, p)"
      by blast
    moreover from match_here_sound [OF this(2)] have "assignment_head h" "dquote \<notin> set v"
      by simp_all
    then have "version_assignment (h @ v @ [dquote])" by (auto simp: version_assignment_def)
    ultimately have "doc = mid @ (h @ v @ [dquote]) @ p \<and> version_assignment (h @ v @ [dquote])"
      by simp
    with no show ?thesis by blast
  qed simp
qed

section \<open>The replacement\<close>

lemma subst_plain:
  assumes "dollar \<notin> set w"
  shows "get_substitution m s p [c1, c2] (w @ [dollar, 50]) = w @ c2"
  using assms
proof (induction w)
  case Nil
  then show ?case by (simp add: is_digit_def)
next
  case (Cons x w)
  then have x: "x \<noteq> dollar" and ih: "get_substitution m s p [c1, c2] (w @ [dollar, 50]) = w @ c2"
    by simp_all
  obtain d t where dt: "w @ [dollar, 50] = d # t" by (cases "w @ [dollar, 50]") simp_all
  have "get_substitution m s p [c1, c2] (x # d # t) = x # get_substitution m s p [c1, c2] (d # t)"
    using x by simp
  with ih show ?case by (simp add: dt)
qed

lemma subst_template:
  assumes "dollar \<notin> set v"
  shows "get_substitution m s p [c1, c2] (dollar # 49 # v @ [dollar, 50]) = c1 @ v @ c2"
proof (cases v)
  case Nil
  then show ?thesis by (simp add: is_digit_def)
next
  case (Cons x v')
  have "get_substitution m s p [c1, c2] (dollar # 49 # x # v' @ [dollar, 50]) =
        c1 @ get_substitution m s p [c1, c2] (x # v' @ [dollar, 50])"
    by (simp add: is_digit_def)
  moreover have "get_substitution m s p [c1, c2] ((x # v') @ [dollar, 50]) = (x # v') @ c2"
    using assms unfolding Cons by (rule subst_plain)
  ultimately show ?thesis by (simp add: Cons)
qed

lemma replace_version_found:
  assumes "search [] doc = Some (before, h, old, post)" and "dollar \<notin> set v"
  shows "replace_version doc ([dollar, 49] @ v @ [dollar, 50]) = before @ h @ v @ dquote # post"
  using assms by (simp add: replace_version_def subst_template del: get_substitution.simps)

lemma replace_version_none:
  assumes "search [] doc = None"
  shows "replace_version doc template = doc"
  using assms by (simp add: replace_version_def)

text \<open>The text before the first quote of a document does not depend on what stands between two
  later quotes.\<close>

lemma two_quotes_split:
  "\<exists>a. dquote \<notin> set a \<and>
     (\<forall>V p. dquote \<notin> set V \<longrightarrow>
        (\<exists>b r. dquote \<notin> set b \<and> z @ dquote # V @ dquote # p = a @ dquote # b @ dquote # r))"
proof (cases "dquote \<in> set z")
  case False
  then show ?thesis by (intro exI [of _ z]) auto
next
  case True
  then obtain a z2 where z: "z = a @ dquote # z2" and a: "dquote \<notin> set a"
    by (auto dest: split_list_first)
  show ?thesis
  proof (cases "dquote \<in> set z2")
    case False
    have "\<forall>V p. dquote \<notin> set V \<longrightarrow>
        (\<exists>b r. dquote \<notin> set b \<and> z @ dquote # V @ dquote # p = a @ dquote # b @ dquote # r)"
    proof (intro allI impI)
      fix V p :: ustring
      have "z @ dquote # V @ dquote # p = a @ dquote # z2 @ dquote # (V @ dquote # p)"
        by (simp add: z)
      with False show "\<exists>b r. dquote \<notin> set b \<and> z @ dquote # V @ dquote # p = a @ dquote # b @ dquote # r"
        by blast
    qed
    with a show ?thesis by blast
  next
    case True
    then obtain b z3 where z2: "z2 = b @ dquote # z3" and b: "dquote \<notin> set b"
      by (auto dest: split_list_first)
    have "\<forall>V p. dquote \<notin> set V \<longrightarrow>
        (\<exists>b r. dquote \<notin> set b \<and> z @ dquote # V @ dquote # p = a @ dquote # b @ dquote # r)"
    proof (intro allI impI)
      fix V p :: ustring
      have "z @ dquote # V @ dquote # p = a @ dquote # b @ dquote # (z3 @ dquote # V @ dquote # p)"
        by (simp add: z z2)
      with b show "\<exists>b r. dquote \<notin> set b \<and> z @ dquote # V @ dquote # p = a @ dquote # b @ dquote # r"
        by blast
    qed
    with a show ?thesis by blast
  qed
qed

lemma match_here_None_stable:
  assumes "dquote \<notin> set v" and "dquote \<notin> set v'"
    and "match_here (z @ dquote # v @ dquote # p) = None"
  shows "match_here (z @ dquote # v' @ dquote # p) = None"
proof -
  from two_quotes_split [of z] obtain a where a: "dquote \<notin> set a"
    and split: "\<And>V p. dquote \<notin> set V \<Longrightarrow>
        \<exists>b r. dquote \<notin> set b \<and> z @ dquote # V @ dquote # p = a @ dquote # b @ dquote # r"
    by blast
  from split [OF assms(1), of p] obtain b r where
    b: "dquote \<notin> set b" "z @ dquote # v @ dquote # p = a @ dquote # b @ dquote # r" by blast
  from split [OF assms(2), of p] obtain b' r' where
    b': "dquote \<notin> set b'" "z @ dquote # v' @ dquote # p = a @ dquote # b' @ dquote # r'" by blast
  from assms(3) have "\<not> assignment_head (a @ [dquote])"
    unfolding b(2) match_here_two_quotes [OF a b(1)] by (simp split: if_splits)
  then show ?thesis
    unfolding b'(2) match_here_two_quotes [OF a b'(1)] by simp
qed

lemma search_after_replace:
  assumes found: "search [] doc = Some (before, h, old, post)"
    and v: "dquote \<notin> set v"
  shows "search [] (before @ h @ v @ dquote # post) = Some (before, h, v, post)"
proof -
  from search_sound [OF found] have doc: "doc = before @ h @ old @ dquote # post"
    and m: "match_here (h @ old @ dquote # post) = Some (h, old, post)"
    and first: "\<forall>i<length before. match_here (drop i doc) = None"
    by auto
  from match_here_sound [OF m] have hd: "assignment_head h" and old: "dquote \<notin> set old"
    by simp_all
  from head_quote [OF hd] obtain a where a: "h = a @ [dquote]" "dquote \<notin> set a" by blast
  have new: "match_here (h @ v @ dquote # post) = Some (h, v, post)"
    using hd v by (rule match_here_complete)
  have "\<forall>i<length before. match_here (drop i (before @ h @ v @ dquote # post)) = None"
  proof (intro allI impI)
    fix i assume i: "i < length before"
    with first have "match_here (drop i doc) = None" by blast
    with i have "match_here ((drop i before @ a) @ dquote # old @ dquote # post) = None"
      by (simp add: doc a)
    from match_here_None_stable [OF old v this] i
    show "match_here (drop i (before @ h @ v @ dquote # post)) = None"
      by (simp add: a)
  qed
  from search_found [OF this new, of "[]"] show ?thesis by simp
qed

section \<open>syncVersion\<close>

lemma digits_chars: "digits d \<Longrightarrow> c \<in> set d \<Longrightarrow> is_digit c"
  by (simp add: digits_def list_all_iff)

lemma version_chars:
  assumes "version_parts major minor patch pre" and "c \<in> set (version_text major minor patch pre)"
  shows "is_prerelease_char c \<or> c = hyphen"
proof -
  have d: "is_prerelease_char x" if "digits ds" "x \<in> set ds" for ds x
    using digits_chars [OF that] by (simp add: is_prerelease_char_def is_word_def)
  from assms(1) have p: "digits major" "digits minor" "digits patch"
    "\<And>q. pre = Some q \<Longrightarrow> list_all is_prerelease_char q"
    by (auto simp: version_parts_def)
  from assms(2) show ?thesis
    using d [OF p(1)] d [OF p(2)] d [OF p(3)] p(4)
    by (cases pre) (auto simp: version_text_def is_prerelease_char_def list_all_iff)
qed

lemma version_plain:
  assumes "version_parts major minor patch pre"
  shows "dollar \<notin> set (version_text major minor patch pre)"
    and "dquote \<notin> set (version_text major minor patch pre)"
  using version_chars [OF assms]
  by (fastforce simp: is_prerelease_char_def is_word_def is_digit_def)+

lemma syncVersion_string:
  assumes "project_version_json st = Doc r" and "r k_version = Some (JStr v)"
    and "package_json st = Doc pkg" and "cargo_toml st = Some doc"
  shows "syncVersion st =
    (Returned (),
     st\<lparr>package_json := Doc (pkg(k_version \<mapsto> JStr v)),
        cargo_toml := Some (replace_version doc ([dollar, 49] @ v @ [dollar, 50]))\<rparr>)"
  using assms by (simp add: syncVersion_def template_string_def Let_def)

lemma search_cargo_with:
  "search [] (cargo_with (lit ''0.1.0'')) = Some (cargo_before, cargo_head, lit ''0.1.0'', cargo_after)"
  by (simp add: cargo_with_def cargo_before_def cargo_head_def cargo_after_def match_here_def
      strip_prefix_def expect_def is_space_def not_dquote_def lit_def)

lemma search_cargo_workspace: "search [] cargo_workspace = None"
  by (simp add: cargo_workspace_def match_here_def strip_prefix_def expect_def is_space_def
      not_dquote_def lit_def)

lemma project_files_simps [simp]:
  "project_version_json (project_files r pkg cargo) = Doc r"
  "package_json (project_files r pkg cargo) = Doc pkg"
  "cargo_toml (project_files r pkg cargo) = Some cargo"
  "console (project_files r pkg cargo) = []"
  by (simp_all add: project_files_def)

lemma record_of_version_simps [simp]: "record_of_version v k_version = Some (JStr v)"
  by (simp add: record_of_version_def)

lemma version_1_3_0:
  "version_text (lit ''1'') (lit ''3'') (lit ''0'') None = lit ''1.3.0''"
  "version_parts (lit ''1'') (lit ''3'') (lit ''0'') None"
  by (simp_all add: version_text_def version_parts_def digits_def is_digit_def lit_def)


text \<open>
  Claim C3. Let the version record hold a version of the grammar, digits and dots only
  or with a prerelease suffix. \<open>syncVersion\<close> returns; afterwards the \<open>version\<close> field
  of \<open>package.json\<close> is that version, and when \<open>Cargo.toml\<close> had a
  \<open>version = "..."\<close> assignment, the value of the first such assignment of the new
  \<open>Cargo.toml\<close> is that version too. A version that starts with a digit is no
  exception: after \<open>$1\<close> the digit is not read as part of the capture index, since
  the expression has two captures only.
\<close>

theorem syncVersion_propagates:
  assumes "project_version_json st = Doc r"
    and "r k_version = Some (JStr (version_text major minor patch pre))"
    and "version_parts major minor patch pre"
    and "package_json st = Doc pkg"
    and "cargo_toml st = Some doc"
  shows "fst (syncVersion st) = Returned () \<and>
    (\<exists>pkg'. package_json (snd (syncVersion st)) = Doc pkg' \<and>
       pkg' k_version = Some (JStr (version_text major minor patch pre))) \<and>
    (\<exists>doc'. cargo_toml (snd (syncVersion st)) = Some doc' \<and>
       (first_version_value doc \<noteq> None \<longrightarrow>
        first_version_value doc' = Some (version_text major minor patch pre)))"
proof -
  let ?v = "version_text major minor patch pre"
  let ?doc' = "replace_version doc ([dollar, 49] @ ?v @ [dollar, 50])"
  note plain = version_plain [OF assms(3)]
  have "first_version_value ?doc' = Some ?v" if "first_version_value doc \<noteq> None"
  proof -
    from that obtain before h old post where found: "search [] doc = Some (before, h, old, post)"
      by (auto simp: first_version_value_def split: option.splits)
    from replace_version_found [OF found plain(1)] search_after_replace [OF found plain(2)]
    show ?thesis by (simp add: first_version_value_def)
  qed
  then show ?thesis
    unfolding syncVersion_string [OF assms(1,2,4,5)] by simp
qed


text \<open>The theorem at the version \<open>1.3.0\<close>, a \<open>package.json\<close> at \<open>0.0.1\<close> and a \<open>Cargo.toml\<close> at \<open>0.1.0\<close>.\<close>

theorem syncVersion_propagates_witness:
  "first_version_value (cargo_with (lit ''0.1.0'')) = Some (lit ''0.1.0'') \<and>
   fst (syncVersion (project_files (record_of_version (lit ''1.3.0'')) package_0_0_1
          (cargo_with (lit ''0.1.0'')))) = Returned () \<and>
   (\<exists>pkg'. package_json (snd (syncVersion (project_files (record_of_version (lit ''1.3.0''))
          package_0_0_1 (cargo_with (lit ''0.1.0''))))) = Doc pkg' \<and>
       pkg' k_version = Some (JStr (lit ''1.3.0''))) \<and>
   (\<exists>doc'. cargo_toml (snd (syncVersion (project_files (record_of_version (lit ''1.3.0''))
          package_0_0_1 (cargo_with (lit ''0.1.0''))))) = Some doc' \<and>
       first_version_value doc' = Some (lit ''1.3.0''))"
proof -
  have fv: "first_version_value (cargo_with (lit ''0.1.0'')) = Some (lit ''0.1.0'')"
    by (simp add: first_version_value_def search_cargo_with)
  from syncVersion_propagates [of "project_files (record_of_version (lit ''1.3.0'')) package_0_0_1
      (cargo_with (lit ''0.1.0''))" "record_of_version (lit ''1.3.0'')" "lit ''1''" "lit ''3''"
      "lit ''0''" None package_0_0_1 "cargo_with (lit ''0.1.0'')"]
  show ?thesis by (simp add: version_1_3_0 fv)
qed


text \<open>
  The frame of the replacement, for every version that contains no dollar sign: the
  document with no assignment is written back as it was, and in a document with an
  assignment only the value of the leftmost one changes.
\<close>

lemma cargo_frame_plain:
  assumes "project_version_json st = Doc r"
    and "r k_version = Some (JStr v)"
    and "dollar \<notin> set v"
    and "package_json st = Doc pkg"
    and "cargo_toml st = Some doc"
  shows "fst (syncVersion st) = Returned () \<and>
    (search [] doc = None \<longrightarrow> cargo_toml (snd (syncVersion st)) = Some doc) \<and>
    (\<forall>before head old post.
       search [] doc = Some (before, head, old, post) \<longrightarrow>
         doc = before @ head @ old @ dquote # post \<and>
         cargo_toml (snd (syncVersion st)) = Some (before @ head @ v @ dquote # post) \<and>
         assignment_head head \<and> dquote \<notin> set old \<and>
         (\<forall>i<length before. match_here (drop i doc) = None))"
proof -
  have "doc = before @ head @ old @ dquote # post \<and>
        replace_version doc ([dollar, 49] @ v @ [dollar, 50]) = before @ head @ v @ dquote # post \<and>
        assignment_head head \<and> dquote \<notin> set old \<and>
        (\<forall>i<length before. match_here (drop i doc) = None)"
    if found: "search [] doc = Some (before, head, old, post)" for before head old post
  proof -
    from search_sound [OF found] have doc: "doc = before @ head @ old @ dquote # post"
      and m: "match_here (head @ old @ dquote # post) = Some (head, old, post)"
      and first: "\<forall>i<length before. match_here (drop i doc) = None"
      by auto
    from match_here_sound [OF m] replace_version_found [OF found assms(3)] doc first
    show ?thesis by blast
  qed
  then show ?thesis
    unfolding syncVersion_string [OF assms(1,2,4,5)]
    by (simp add: replace_version_none)
qed

text \<open>
  The condition matters to the template, not to the grammar: no version of the grammar
  contains a dollar sign, but a dollar sign at the end of the version would make
  \<open>$$\<close> of the version's last character and the dollar sign of \<open>$2\<close>, and the
  closing quote would be lost.
\<close>

lemma replace_version_trailing_dollar:
  "replace_version (lit ''version = '' @ [dquote] @ lit ''0.1.0'' @ [dquote])
     ([dollar, 49] @ lit ''1$'' @ [dollar, 50]) =
   lit ''version = '' @ [dquote] @ lit ''1$2''"
  by (simp add: replace_version_def match_here_def strip_prefix_def expect_def is_space_def
      not_dquote_def lit_def is_digit_def)

text \<open>
  Claim C4. Let the version record hold a version of the grammar. When \<open>Cargo.toml\<close>
  has no \<open>version = "..."\<close> assignment it is written back as it was. Otherwise the
  document is \<open>before @ head @ old @ " @ post\<close>, where \<open>head\<close> is the head of the
  leftmost assignment (no assignment starts in \<open>before\<close>) and \<open>old\<close> is its value, and
  the new document is \<open>before @ head @ v @ " @ post\<close>: the value is replaced by the
  version \<open>v\<close>, and every code unit before and after it is kept.
\<close>

theorem syncVersion_cargo_frame:
  assumes "project_version_json st = Doc r"
    and "r k_version = Some (JStr (version_text major minor patch pre))"
    and "version_parts major minor patch pre"
    and "package_json st = Doc pkg"
    and "cargo_toml st = Some doc"
  shows "fst (syncVersion st) = Returned () \<and>
    (search [] doc = None \<longrightarrow> cargo_toml (snd (syncVersion st)) = Some doc) \<and>
    (\<forall>before head old post.
       search [] doc = Some (before, head, old, post) \<longrightarrow>
         doc = before @ head @ old @ dquote # post \<and>
         cargo_toml (snd (syncVersion st)) =
           Some (before @ head @ version_text major minor patch pre @ dquote # post) \<and>
         assignment_head head \<and> dquote \<notin> set old \<and>
         (\<forall>i<length before. match_here (drop i doc) = None))"
  using assms(1,2) version_plain(1) [OF assms(3)] assms(4,5) by (rule cargo_frame_plain)

text \<open>The theorem at the same files, and at a \<open>Cargo.toml\<close> with no version assignment.\<close>

theorem syncVersion_cargo_frame_witness:
  "cargo_toml (snd (syncVersion (project_files (record_of_version (lit ''1.3.0'')) package_0_0_1
          (cargo_with (lit ''0.1.0''))))) =
     Some (cargo_before @ cargo_head @ lit ''1.3.0'' @ dquote # cargo_after) \<and>
   cargo_toml (snd (syncVersion (project_files (record_of_version (lit ''1.3.0'')) package_0_0_1
          cargo_workspace))) = Some cargo_workspace"
proof -
  have frame: "\<forall>before head old post.
       search [] doc = Some (before, head, old, post) \<longrightarrow>
         cargo_toml (snd (syncVersion (project_files (record_of_version (lit ''1.3.0''))
           package_0_0_1 doc))) = Some (before @ head @ lit ''1.3.0'' @ dquote # post)"
    and same: "search [] doc = None \<longrightarrow>
         cargo_toml (snd (syncVersion (project_files (record_of_version (lit ''1.3.0''))
           package_0_0_1 doc))) = Some doc" for doc
    using syncVersion_cargo_frame [of "project_files (record_of_version (lit ''1.3.0''))
      package_0_0_1 doc" "record_of_version (lit ''1.3.0'')" "lit ''1''" "lit ''3''" "lit ''0''"
      None package_0_0_1 doc]
    by (simp_all add: version_1_3_0)
  from frame [of "cargo_with (lit ''0.1.0'')"] search_cargo_with
  have "cargo_toml (snd (syncVersion (project_files (record_of_version (lit ''1.3.0''))
          package_0_0_1 (cargo_with (lit ''0.1.0''))))) =
     Some (cargo_before @ cargo_head @ lit ''1.3.0'' @ dquote # cargo_after)"
    by blast
  moreover from same [of cargo_workspace] search_cargo_workspace
  have "cargo_toml (snd (syncVersion (project_files (record_of_version (lit ''1.3.0''))
          package_0_0_1 cargo_workspace))) = Some cargo_workspace"
    by blast
  ultimately show ?thesis by (rule conjI)
qed


text \<open>
  Claim C10. When no substring of \<open>Cargo.toml\<close> is a \<open>version = "..."\<close> assignment,
  \<open>syncVersion\<close> returns without an error and without a message, and \<open>Cargo.toml\<close>
  is written back as it was: it still has no version assignment, so its version is not
  the version of the record.
\<close>

theorem syncVersion_no_assignment:
  assumes "project_version_json st = Doc r"
    and "template_string (r k_version) = Some versionString"
    and "package_json st = Doc pkg"
    and "cargo_toml st = Some doc"
    and "\<not> (\<exists>before w post. doc = before @ w @ post \<and> version_assignment w)"
  shows "fst (syncVersion st) = Returned () \<and>
         cargo_toml (snd (syncVersion st)) = Some doc \<and>
         console (snd (syncVersion st)) = console st \<and>
         first_version_value doc = None"
proof -
  have none: "search [] doc = None"
    using assms(5) search_None_iff [of doc] by blast
  with assms(1-4) show ?thesis
    by (simp add: syncVersion_def Let_def replace_version_none first_version_value_def)
qed

text \<open>The theorem at a \<open>Cargo.toml\<close> that declares a workspace and no version.\<close>

theorem syncVersion_no_assignment_witness:
  "fst (syncVersion (project_files (record_of_version (lit ''1.3.0'')) package_0_0_1
          cargo_workspace)) = Returned () \<and>
   cargo_toml (snd (syncVersion (project_files (record_of_version (lit ''1.3.0'')) package_0_0_1
          cargo_workspace))) = Some cargo_workspace \<and>
   first_version_value cargo_workspace = None"
proof -
  note none = search_cargo_workspace [unfolded search_None_iff]
  have t: "template_string (record_of_version (lit ''1.3.0'') k_version) = Some (lit ''1.3.0'')"
    by (simp add: template_string_def)
  from syncVersion_no_assignment [of "project_files (record_of_version (lit ''1.3.0''))
      package_0_0_1 cargo_workspace" "record_of_version (lit ''1.3.0'')" "lit ''1.3.0''"
      package_0_0_1 cargo_workspace] t none
  show ?thesis by simp
qed

section \<open>The postinstall download\<close>


lemma template_record_1_2_3: "template_string (record_1_2_3 k_version) = Some (lit ''1.2.3'')"
  by (simp add: template_string_def record_1_2_3_def)

lemma binary_name_linux: "binary_name (lit ''linux'') = lit ''devapack-x86_64-unknown-linux-gnu''"
  by (simp add: binary_name_def lit_def)

lemma binary_name_linux_ne: "binary_name (lit ''linux'') \<noteq> []"
  unfolding binary_name_linux by (simp add: lit_def)



text \<open>
  Claim C6, as amended. On a supported platform, once the script has reached the
  request, it writes the artifact into the destination directory, with mode \<open>0o755\<close>,
  exactly when the response has status 200. For a 404, for every other status, the other
  2xx statuses among them, and for a transport error it writes no file.
\<close>

theorem postinstall_writes_iff_200:
  assumes "template_string (r k_version) = Some versionString"
    and "mkdir_ok"
    and "binary_name platform \<noteq> []"
  shows "downloads (snd (postinstall (Doc r) platform destDir mkdir_ok event)) =
           (if event = Response 200 then [(destDir, binary_name platform, 493)] else [])"
  using assms by (cases event) (simp_all add: postinstall_def Let_def on_event_def)

text \<open>The theorem on Linux at the statuses 200 and 404.\<close>

theorem postinstall_writes_iff_200_witness:
  "downloads (snd (postinstall (Doc record_1_2_3) (lit ''linux'') (lit ''out-tsc/bin'') True
      (Response 200))) =
     [(lit ''out-tsc/bin'', lit ''devapack-x86_64-unknown-linux-gnu'', 493)] \<and>
   downloads (snd (postinstall (Doc record_1_2_3) (lit ''linux'') (lit ''out-tsc/bin'') True
      (Response 404))) = []"
  using
    postinstall_writes_iff_200 [of record_1_2_3 "lit ''1.2.3''" True "lit ''linux''"
      "lit ''out-tsc/bin''" "Response 200", OF template_record_1_2_3 TrueI binary_name_linux_ne]
    postinstall_writes_iff_200 [of record_1_2_3 "lit ''1.2.3''" True "lit ''linux''"
      "lit ''out-tsc/bin''" "Response 404", OF template_record_1_2_3 TrueI binary_name_linux_ne]
  by (simp add: binary_name_linux)

text \<open>
  Claim C6 as it is written fails at the status 204: it is a 2xx status, and the script
  prints \<open>Failed (HTTP 204)\<close> and writes no file, since it compares the status with 200.
\<close>

theorem postinstall_204_counterexample:
  "is_2xx 204 \<and>
   downloads (snd (postinstall (Doc record_1_2_3) (lit ''linux'') (lit ''out-tsc/bin'') True
      (Response 204))) = [] \<and>
   messages (snd (postinstall (Doc record_1_2_3) (lit ''linux'') (lit ''out-tsc/bin'') True
      (Response 204))) =
     [(LOG, Downloading (lit ''devapack-x86_64-unknown-linux-gnu'')
          (download_url (lit ''1.2.3'') (lit ''devapack-x86_64-unknown-linux-gnu''))),
      (ERROR, HttpFailed 204)]"
  using binary_name_linux_ne
  by (simp add: is_2xx_def postinstall_def Let_def on_event_def template_record_1_2_3
      binary_name_linux)

section \<open>The destination of copy-to-binary\<close>

lemma flags_distinct [simp]:
  "lit ''--binary'' \<noteq> lit ''--source''" "lit ''--out-dir'' \<noteq> lit ''--source''"
  "lit ''--out-dir'' \<noteq> lit ''--binary''"
  by (simp_all add: lit_def)

text \<open>
  Claim C8. \<open>--binary\<close> followed by a value stores the value as \<open>binaryArg\<close>. For a
  value that is a path (a string that is not empty), the destination is the parent
  directory of the resolved path when that path exists and is a regular file, else its
  parent directory when the resolved path has an extension, else the resolved path
  itself. With neither \<open>--binary\<close> nor \<open>--out-dir\<close> the destination is the working
  directory.
\<close>

theorem resolve_destDir_rule:
  "parse_args [lit ''--binary'', b] acc = Inr (acc\<lparr>binaryArg := Some b\<rparr>) \<and>
   (binaryArg a = Some b \<and> b \<noteq> [] \<longrightarrow>
      resolve_destDir env a =
        Some (if fs_existsSync env (path_resolve env b) \<and> fs_isFile env (path_resolve env b)
              then path_dirname env (path_resolve env b)
              else if path_extname env (path_resolve env b) \<noteq> []
              then path_dirname env (path_resolve env b)
              else path_resolve env b)) \<and>
   (binaryArg a = None \<and> outDirArg a = None \<longrightarrow> resolve_destDir env a = Some (process_cwd env))"
  by (simp add: resolve_destDir_def truthy_arg_def Let_def next_arg_def)

lemma example_env_simps [simp]:
  "process_cwd example_env = lit ''/work''"
  "default_source example_env = lit ''/repo/project-version.json''"
  "path_resolve example_env = example_resolve"
  "path_dirname example_env = example_dirname"
  "path_extname example_env = example_extname"
  "path_join example_env d f = d @ [slash] @ f"
  "copy_succeeds example_env s d = True"
  by (simp_all add: example_env_def)

lemma example_files:
  "fs_existsSync example_env (lit ''/opt/app/bin/tool'')"
  "fs_isFile example_env (lit ''/opt/app/bin/tool'')"
  "\<not> fs_existsSync example_env (lit ''/new/dir/out.exe'')"
  "\<not> fs_existsSync example_env (lit ''/new/dir'')"
  "fs_existsSync example_env (lit ''/repo/project-version.json'')"
  by (simp_all add: example_env_def lit_def)

lemma example_paths:
  "example_resolve (lit ''/opt/app/bin/tool'') = lit ''/opt/app/bin/tool''"
  "example_resolve (lit ''/new/dir/out.exe'') = lit ''/new/dir/out.exe''"
  "example_resolve (lit ''/new/dir'') = lit ''/new/dir''"
  "example_dirname (lit ''/opt/app/bin/tool'') = lit ''/opt/app/bin''"
  "example_dirname (lit ''/new/dir/out.exe'') = lit ''/new/dir''"
  "example_extname (lit ''/new/dir/out.exe'') = lit ''.exe''"
  "example_extname (lit ''/new/dir'') = []"
  by (simp_all add: example_resolve_def example_dirname_def example_extname_def lit_def)

text \<open>
  The theorem in the example environment: at the existing file \<open>/opt/app/bin/tool\<close>, at
  \<open>/new/dir/out.exe\<close> and \<open>/new/dir\<close>, which do not exist, and with no flag.
\<close>

theorem resolve_destDir_rule_witness:
  "parse_args [lit ''--binary'', lit ''/opt/app/bin/tool''] no_args =
     Inr (no_args\<lparr>binaryArg := Some (lit ''/opt/app/bin/tool'')\<rparr>) \<and>
   resolve_destDir example_env (no_args\<lparr>binaryArg := Some (lit ''/opt/app/bin/tool'')\<rparr>) =
     Some (lit ''/opt/app/bin'') \<and>
   resolve_destDir example_env (no_args\<lparr>binaryArg := Some (lit ''/new/dir/out.exe'')\<rparr>) =
     Some (lit ''/new/dir'') \<and>
   resolve_destDir example_env (no_args\<lparr>binaryArg := Some (lit ''/new/dir'')\<rparr>) =
     Some (lit ''/new/dir'') \<and>
   resolve_destDir example_env no_args = Some (lit ''/work'')"
proof -
  have ne: "lit ''/opt/app/bin/tool'' \<noteq> []" "lit ''/new/dir/out.exe'' \<noteq> []" "lit ''/new/dir'' \<noteq> []"
    "lit ''.exe'' \<noteq> []"
    by (simp_all add: lit_def)
  have a: "binaryArg (no_args\<lparr>binaryArg := Some b\<rparr>) = Some b" 
    and n: "binaryArg no_args = None" "outDirArg no_args = None" for b
    by (simp_all add: no_args_def)
  from resolve_destDir_rule [of "lit ''/opt/app/bin/tool''" no_args
      "no_args\<lparr>binaryArg := Some (lit ''/opt/app/bin/tool'')\<rparr>" example_env]
    resolve_destDir_rule [of "lit ''/new/dir/out.exe''" no_args
      "no_args\<lparr>binaryArg := Some (lit ''/new/dir/out.exe'')\<rparr>" example_env]
    resolve_destDir_rule [of "lit ''/new/dir''" no_args
      "no_args\<lparr>binaryArg := Some (lit ''/new/dir'')\<rparr>" example_env]
    resolve_destDir_rule [of "[]" no_args no_args example_env]
  show ?thesis
    by (simp add: a n ne example_files example_paths)
qed

lemma example_env_paths: "node_paths example_env"
  by (auto simp: node_paths_def example_resolve_def example_dirname_def Let_def lit_def
      split: list.splits)

lemma resolve_destDir_truthy:
  assumes "node_paths env"
  shows "\<exists>d. truthy_arg (resolve_destDir env a) = Some d"
  using assms
  by (auto simp: node_paths_def resolve_destDir_def truthy_arg_def Let_def split: option.splits)

text \<open>
  Claim C9. The destination is never \<open>null\<close>: every branch assigns a string. With
  Node's path functions the string is never empty either, so the test \<open>!destDir\<close> fails
  for every argument vector and the script never exits with code 3.
\<close>

theorem destination_always_resolved:
  "resolve_destDir env a \<noteq> None \<and>
   (node_paths env \<longrightarrow>
      truthy_arg (resolve_destDir env a) \<noteq> None \<and> exit_code (copy_to_binary env argv) \<noteq> 3)"
proof -
  have "resolve_destDir env a \<noteq> None"
    by (simp add: resolve_destDir_def Let_def split: option.splits)
  moreover have "truthy_arg (resolve_destDir env a) \<noteq> None" if "node_paths env"
    using resolve_destDir_truthy [OF that, of a] by auto
  moreover have "exit_code (copy_to_binary env argv) \<noteq> 3" if np: "node_paths env"
  proof (cases "parse_args argv \<lparr>sourceArg = None, binaryArg = None, outDirArg = None\<rparr>")
    case (Inl e)
    obtain code out where e: "e = (code, out)" by (cases e)
    have "code \<noteq> 3" if "parse_args xs acc = Inl (code, out)" for xs acc
      using that by (induction xs acc rule: parse_args.induct) (auto split: if_splits)
    with Inl e show ?thesis by (simp add: copy_to_binary_def)
  next
    case (Inr parsed)
    from resolve_destDir_truthy [OF np, of parsed] obtain d where
      "truthy_arg (resolve_destDir env parsed) = Some d" by blast
    with Inr show ?thesis by (simp add: copy_to_binary_def Let_def)
  qed
  ultimately show ?thesis by blast
qed

text \<open>
  The theorem in the example environment, with no argument and with
  \<open>--binary /opt/app/bin/tool\<close>, which copies the version record to
  \<open>/opt/app/bin/project-version.json\<close>.
\<close>

theorem destination_always_resolved_witness:
  "truthy_arg (resolve_destDir example_env no_args) \<noteq> None \<and>
   exit_code (copy_to_binary example_env []) \<noteq> 3 \<and>
   exit_code (copy_to_binary example_env [lit ''--binary'', lit ''/opt/app/bin/tool'']) \<noteq> 3 \<and>
   copied (copy_to_binary example_env [lit ''--binary'', lit ''/opt/app/bin/tool'']) =
     Some (lit ''/repo/project-version.json'', lit ''/opt/app/bin/project-version.json'')"
proof -
  have "copied (copy_to_binary example_env [lit ''--binary'', lit ''/opt/app/bin/tool'']) =
     Some (lit ''/repo/project-version.json'', lit ''/opt/app/bin/project-version.json'')"
    by (simp add: copy_to_binary_def next_arg_def truthy_arg_def resolve_destDir_def Let_def
        example_files example_paths)
      (simp add: lit_def)
  with destination_always_resolved [of example_env no_args "[]"]
    destination_always_resolved [of example_env no_args "[lit ''--binary'', lit ''/opt/app/bin/tool'']"]
    example_env_paths
  show ?thesis by simp
qed

end
